theory Spec2Isabelle
  imports Main "HOL-Library.Sublist"
begin

section \<open>Values and exceptions of the script\<close>

text \<open>
  The script (googlesheety.py) is sequential glue over three web services. Every value it
  inspects is a decoded JSON document, so the Python values are modelled by one datatype.
  \<open>JNull\<close> is Python's \<open>None\<close>; \<open>JObj\<close> holds the items of a \<open>dict\<close> (its keys are
  distinct in Python, the lookup below reads the first binding); numbers are integers
  (no operation of the script depends on a fractional part). A \<open>char\<close> stands for one
  code point below 256.
\<close>

datatype json =
    JNull
  | JBool bool
  | JNum int
  | JStr string
  | JArr "json list"
  | JObj "(string \<times> json) list"

text \<open>
  The exception classes that can arise, all subclasses of Python's \<open>Exception\<close>.
  \<open>RequestException\<close> is \<open>requests.exceptions.RequestException\<close> with its subclasses
  (the \<open>HTTPError\<close> of \<open>raise_for_status\<close> among them); \<open>HttpError\<close> is
  \<open>googleapiclient.errors.HttpError\<close>.
\<close>

datatype py_error =
    RequestException
  | HttpError
  | ValueError
  | AttributeError
  | TypeError
  | IndexError
  | KeyError
  | OtherException

subsection \<open>Python operations on decoded JSON\<close>

text \<open>Truth value of an object, as \<open>if x:\<close> and \<open>not x\<close> test it.\<close>

fun py_truthy :: "json \<Rightarrow> bool" where
  "py_truthy JNull = False"
| "py_truthy (JBool b) = b"
| "py_truthy (JNum n) = (n \<noteq> 0)"
| "py_truthy (JStr s) = (s \<noteq> [])"
| "py_truthy (JArr xs) = (xs \<noteq> [])"
| "py_truthy (JObj kvs) = (kvs \<noteq> [])"

text \<open>\<open>d.get(k, default)\<close>: only a dict has the method.\<close>

definition py_get :: "json \<Rightarrow> string \<Rightarrow> json \<Rightarrow> py_error + json" where
  "py_get d k dflt =
     (case d of
        JObj kvs \<Rightarrow> Inr (case map_of kvs k of Some v \<Rightarrow> v | None \<Rightarrow> dflt)
      | _ \<Rightarrow> Inl AttributeError)"

text \<open>
  \<open>x[0]\<close>: the first element of a list, the first character of a string; an empty
  sequence raises IndexError, a dict has no key 0 (JSON keys are strings), anything else
  is not subscriptable.
\<close>

definition py_index0 :: "json \<Rightarrow> py_error + json" where
  "py_index0 x =
     (case x of
        JArr xs \<Rightarrow> (case xs of [] \<Rightarrow> Inl IndexError | y # _ \<Rightarrow> Inr y)
      | JStr s \<Rightarrow> (case s of [] \<Rightarrow> Inl IndexError | c # _ \<Rightarrow> Inr (JStr [c]))
      | JObj kvs \<Rightarrow> Inl KeyError
      | _ \<Rightarrow> Inl TypeError)"

text \<open>\<open>d[k]\<close> for a string key \<open>k\<close>.\<close>

definition py_getitem :: "json \<Rightarrow> string \<Rightarrow> py_error + json" where
  "py_getitem d k =
     (case d of
        JObj kvs \<Rightarrow> (case map_of kvs k of Some v \<Rightarrow> Inr v | None \<Rightarrow> Inl KeyError)
      | _ \<Rightarrow> Inl TypeError)"

text \<open>\<open>for x in v\<close>: the elements of a list, the keys of a dict, the characters of a string.\<close>

definition py_iter :: "json \<Rightarrow> py_error + json list" where
  "py_iter v =
     (case v of
        JArr xs \<Rightarrow> Inr xs
      | JObj kvs \<Rightarrow> Inr (map (\<lambda>kv. JStr (fst kv)) kvs)
      | JStr s \<Rightarrow> Inr (map (\<lambda>c. JStr [c]) s)
      | _ \<Rightarrow> Inl TypeError)"

definition py_len :: "json \<Rightarrow> py_error + nat" where
  "py_len v =
     (case v of
        JArr xs \<Rightarrow> Inr (length xs)
      | JObj kvs \<Rightarrow> Inr (length kvs)
      | JStr s \<Rightarrow> Inr (length s)
      | _ \<Rightarrow> Inl TypeError)"

text \<open>\<open>p in s\<close> on strings: \<open>p\<close> occurs in \<open>s\<close> as a contiguous run.\<close>

fun py_substring :: "string \<Rightarrow> string \<Rightarrow> bool" where
  "py_substring p [] = (p = [])"
| "py_substring p (c # cs) = (prefix p (c # cs) \<or> py_substring p cs)"

text \<open>\<open>k in v\<close> for a string \<open>k\<close>: key of a dict, element of a list, substring of a string.\<close>

definition py_contains :: "string \<Rightarrow> json \<Rightarrow> py_error + bool" where
  "py_contains k v =
     (case v of
        JObj kvs \<Rightarrow> Inr (map_of kvs k \<noteq> None)
      | JArr xs \<Rightarrow> Inr (JStr k \<in> set xs)
      | JStr s \<Rightarrow> Inr (py_substring k s)
      | _ \<Rightarrow> Inl TypeError)"

text \<open>
  Membership in a \<open>set\<close>: the element is hashed first, so a list or a dict raises
  TypeError; equality is Python's \<open>==\<close>, under which \<open>True == 1\<close> and \<open>False == 0\<close>.
\<close>

fun py_hashable :: "json \<Rightarrow> bool" where
  "py_hashable (JArr xs) = False"
| "py_hashable (JObj kvs) = False"
| "py_hashable v = True"

fun py_eq :: "json \<Rightarrow> json \<Rightarrow> bool" where
  "py_eq (JBool a) (JNum n) = (n = (if a then 1 else 0))"
| "py_eq (JNum n) (JBool a) = (n = (if a then 1 else 0))"
| "py_eq x y = (x = y)"

definition py_in_set :: "json \<Rightarrow> json list \<Rightarrow> py_error + bool" where
  "py_in_set x es =
     (if py_hashable x then Inr (list_ex (py_eq x) es) else Inl TypeError)"

text \<open>
  \<open>s.strip()\<close>: removes leading and trailing whitespace, the characters for which
  \<open>str.isspace\<close> holds (below 256: tab to carriage return, the separators 28 to 31,
  space, NEL and the no-break space). Only a string has the method.
\<close>

definition py_isspace :: "char \<Rightarrow> bool" where
  "py_isspace c =
     (let n = (of_char c :: nat)
      in (9 \<le> n \<and> n \<le> 13) \<or> (28 \<le> n \<and> n \<le> 32) \<or> n = 133 \<or> n = 160)"

definition strip :: "string \<Rightarrow> string" where
  "strip s = rev (dropWhile py_isspace (rev (dropWhile py_isspace s)))"

definition py_strip :: "json \<Rightarrow> py_error + string" where
  "py_strip v = (case v of JStr s \<Rightarrow> Inr (strip s) | _ \<Rightarrow> Inl AttributeError)"

text \<open>
  \<open>re.match(r'^https?://', s)\<close>: the literal \<open>http\<close>, an optional \<open>s\<close> (tried first, then
  skipped), the literal \<open>://\<close>, anchored at the start of \<open>s\<close>.
\<close>

definition literal :: "string \<Rightarrow> string \<Rightarrow> string option" where
  "literal p s = (if prefix p s then Some (drop (length p) s) else None)"

definition re_match_https :: "string \<Rightarrow> bool" where
  "re_match_https s =
     (case literal ''http'' s of
        None \<Rightarrow> False
      | Some r \<Rightarrow>
          (case literal ''s'' r of
             Some r' \<Rightarrow> prefix ''://'' r' \<or> prefix ''://'' r
           | None \<Rightarrow> prefix ''://'' r))"

section \<open>Configuration, process state and the outside world\<close>

text \<open>
  The module-level constants read from the environment at import time; \<open>os.getenv\<close>
  yields \<open>None\<close> for a variable that is not set and the empty string for one set to
  nothing.
\<close>

record config =
  ZOHO_REFRESH_TOKEN :: "string option"
  ZOHO_CLIENT_ID :: "string option"
  ZOHO_CLIENT_SECRET :: "string option"
  gemini_api_key :: "string option"
  SPREADSHEET_ID :: "string option"

text \<open>\<open>refresh_url_template.format(**refresh_params)\<close>; \<open>None\<close> is formatted as \<open>None\<close>.\<close>

definition format_param :: "string option \<Rightarrow> string" where
  "format_param v = (case v of None \<Rightarrow> ''None'' | Some x \<Rightarrow> x)"

definition refresh_url :: "config \<Rightarrow> string" where
  "refresh_url cfg =
     ''https://accounts.zoho.in/oauth/v2/token?refresh_token='' @ format_param (ZOHO_REFRESH_TOKEN cfg)
     @ ''&client_id='' @ format_param (ZOHO_CLIENT_ID cfg)
     @ ''&client_secret='' @ format_param (ZOHO_CLIENT_SECRET cfg)
     @ ''&grant_type=refresh_token''"

definition SHEET_NAME :: string where
  "SHEET_NAME = ''Sheet1''"

text \<open>The dict \<open>zoho_headers\<close> has two fixed keys; only \<open>Authorization\<close> is ever assigned.\<close>

record headers =
  Authorization :: "string option"
  Content_Type :: string

text \<open>
  The calls that leave the process. Each carries what the script puts into it: the
  refresh URL; the headers, page limit and page offset of a listing; the headers and the
  resource id of a permission request; the API key and the embedded response of a
  generative-text request; spreadsheet id and range of a column read; spreadsheet id,
  range, value input option and rows of an append.
\<close>

datatype request =
    PostRefresh string
  | GetFiles headers nat nat
  | PostPermissions headers json
  | PostGemini "string option" json
  | SheetsGet "string option" string
  | SheetsAppend "string option" string string "(json \<times> json) list"

text \<open>One constructor for each \<open>print\<close> statement of the script, with the values it shows.\<close>

datatype log =
    LogInvalidGoogleToken
  | LogSheetsInitFailed py_error
  | LogMissingZoho
  | LogMissingGemini
  | LogMissingSpreadsheet
  | LogNewToken string
  | LogRefreshFailed json
  | LogRefreshError py_error
  | LogFetchError py_error
  | LogPermissionsSet json json
  | LogDirectPermalink json json
  | LogNoDirectPermalink json
  | LogGeminiPermalink json json
  | LogProcessError json py_error
  | LogGeminiNone
  | LogGeminiInvalid string
  | LogGeminiLink string
  | LogGeminiError py_error
  | LogExistingIds "json list"
  | LogWillAppend json json
  | LogSkipping json
  | LogNoNewIds
  | LogAppended json
  | LogAppendError py_error
  | LogUnexpected py_error
  | LogRefreshing
  | LogRefreshExit
  | LogFetching
  | LogFound nat
  | LogProcessing json
  | LogNoValidResults

datatype event = Request request | Sleep nat | Print log

text \<open>
  The process-wide state: the two globals that \<open>refresh_access_token\<close> assigns, and the
  history of everything the run has done so far, oldest first.
\<close>

record state =
  zoho_auth_token :: "string option"
  zoho_headers :: headers
  trace :: "event list"

definition init_state :: state where
  "init_state =
     \<lparr>zoho_auth_token = None,
      zoho_headers = \<lparr>Authorization = None, Content_Type = ''application/json''\<rparr>,
      trace = []\<rparr>"

definition emit :: "event \<Rightarrow> state \<Rightarrow> state" where
  "emit e s = s\<lparr>trace := trace s @ [e]\<rparr>"

text \<open>
  What is at \<open>TOKEN_PATH\<close>: nothing, a file that \<open>from_authorized_user_file\<close> rejects with
  an exception, or credentials with their \<open>valid\<close> flag.
\<close>

datatype token_file = NoFile | BadFile py_error | Token bool

text \<open>
  The outside world answers as a function of the history. \<open>respond\<close> is the outcome of
  sending a request, checking the status and decoding the body (for the spreadsheet
  client, of \<open>execute()\<close>): an exception or the decoded document. \<open>py_str\<close> is Python's
  \<open>str\<close> on values other than strings, as an f-string applies it.
\<close>

record env =
  respond :: "event list \<Rightarrow> request \<Rightarrow> py_error + json"
  TOKEN_PATH :: "event list \<Rightarrow> token_file"
  py_str :: "json \<Rightarrow> string"

definition py_format :: "env \<Rightarrow> json \<Rightarrow> string" where
  "py_format env v = (case v of JStr s \<Rightarrow> s | _ \<Rightarrow> py_str env v)"

text \<open>\<open>try: ... except requests.exceptions.RequestException as e: ...\<close>\<close>

definition except_RequestException ::
  "(py_error + 'a) \<times> state \<Rightarrow> (py_error \<Rightarrow> state \<Rightarrow> (py_error + 'a) \<times> state) \<Rightarrow> (py_error + 'a) \<times> state"
where
  "except_RequestException r handler =
     (case r of
        (Inl e, s) \<Rightarrow> if e = RequestException then handler e s else (Inl e, s)
      | (Inr v, s) \<Rightarrow> (Inr v, s))"

section \<open>Token Refresher\<close>

text \<open>Lines 77 to 87, the body of the \<open>try\<close>.\<close>

definition refresh_try :: "env \<Rightarrow> config \<Rightarrow> state \<Rightarrow> (py_error + bool) \<times> state" where
  "refresh_try env cfg s =
     (let req = PostRefresh (refresh_url cfg); s1 = emit (Request req) s in
      case respond env (trace s) req of
        Inl e \<Rightarrow> (Inl e, s1)
      | Inr data \<Rightarrow>
          (case py_contains ''access_token'' data of
             Inl e \<Rightarrow> (Inl e, s1)
           | Inr present \<Rightarrow>
               if present then
                 (case py_getitem data ''access_token'' of
                    Inl e \<Rightarrow> (Inl e, s1)
                  | Inr v \<Rightarrow>
                      let tok = ''Zoho-oauthtoken '' @ py_format env v;
                          s2 = s1\<lparr>zoho_auth_token := Some tok,
                                  zoho_headers := (zoho_headers s1)\<lparr>Authorization := Some tok\<rparr>\<rparr>
                      in (Inr True, emit (Print (LogNewToken tok)) s2))
               else
                 (case py_get data ''error'' (JStr ''Unknown error'') of
                    Inl e \<Rightarrow> (Inl e, s1)
                  | Inr err \<Rightarrow> (Inr False, emit (Print (LogRefreshFailed err)) s1))))"

definition refresh_access_token :: "env \<Rightarrow> config \<Rightarrow> state \<Rightarrow> (py_error + bool) \<times> state" where
  "refresh_access_token env cfg s =
     (if None \<in> set [ZOHO_REFRESH_TOKEN cfg, ZOHO_CLIENT_ID cfg, ZOHO_CLIENT_SECRET cfg] then
        (Inr False, emit (Print LogMissingZoho) s)
      else if gemini_api_key cfg = None \<or> gemini_api_key cfg = Some [] then
        (Inr False, emit (Print LogMissingGemini) s)
      else if SPREADSHEET_ID cfg = None \<or> SPREADSHEET_ID cfg = Some [] then
        (Inr False, emit (Print LogMissingSpreadsheet) s)
      else
        except_RequestException (refresh_try env cfg s)
          (\<lambda>e s'. (Inr False, emit (Print (LogRefreshError e)) s')))"

section \<open>File Lister\<close>

definition limit :: nat where
  "limit = 50"

text \<open>Lines 105 to 108: the identifiers of one page, appended to those collected so far.\<close>

fun collect_ids :: "json list \<Rightarrow> json list \<Rightarrow> py_error + json list" where
  "collect_ids [] file_ids = Inr file_ids"
| "collect_ids (file # rest) file_ids =
     (case py_get file ''id'' JNull of
        Inl e \<Rightarrow> Inl e
      | Inr file_id \<Rightarrow>
          collect_ids rest (if py_truthy file_id then file_ids @ [file_id] else file_ids))"

text \<open>
  Lines 99 to 112, the body of the \<open>try\<close> inside the loop. The result is the list of
  identifiers, the next offset, and whether the loop goes round again (\<open>False\<close> is
  \<open>break\<close>).
\<close>

definition fetch_page_try ::
  "env \<Rightarrow> nat \<Rightarrow> json list \<Rightarrow> state \<Rightarrow> (py_error + json list \<times> nat \<times> bool) \<times> state"
where
  "fetch_page_try env offset file_ids s =
     (let req = GetFiles (zoho_headers s) limit offset; s1 = emit (Request req) s in
      case respond env (trace s) req of
        Inl e \<Rightarrow> (Inl e, s1)
      | Inr data \<Rightarrow>
          (case py_get data ''data'' (JArr []) of
             Inl e \<Rightarrow> (Inl e, s1)
           | Inr files \<Rightarrow>
               if \<not> py_truthy files then (Inr (file_ids, offset, False), s1)
               else
                 (case py_iter files of
                    Inl e \<Rightarrow> (Inl e, s1)
                  | Inr fs \<Rightarrow>
                      (case collect_ids fs file_ids of
                         Inl e \<Rightarrow> (Inl e, s1)
                       | Inr file_ids' \<Rightarrow>
                           (case py_len files of
                              Inl e \<Rightarrow> (Inl e, s1)
                            | Inr n \<Rightarrow>
                                if n < limit then (Inr (file_ids', offset, False), s1)
                                else (Inr (file_ids', offset + limit, True), emit (Sleep 1) s1))))))"

definition fetch_page ::
  "env \<Rightarrow> nat \<Rightarrow> json list \<Rightarrow> state \<Rightarrow> (py_error + json list \<times> nat \<times> bool) \<times> state"
where
  "fetch_page env offset file_ids s =
     except_RequestException (fetch_page_try env offset file_ids s)
       (\<lambda>e s'. (Inr (file_ids, offset, False), emit (Print (LogFetchError e)) s'))"

text \<open>
  \<open>while True\<close>: nothing bounds the number of pages, so the loop is a partial function and
  \<open>None\<close> stands for a run that never leaves it.
\<close>

partial_function (option) fetch_loop ::
  "env \<Rightarrow> nat \<Rightarrow> json list \<Rightarrow> state \<Rightarrow> ((py_error + json list) \<times> state) option"
where
  "fetch_loop env offset file_ids s =
     (case fetch_page env offset file_ids s of
        (Inl e, s') \<Rightarrow> Some (Inl e, s')
      | (Inr (file_ids', offset', again), s') \<Rightarrow>
          if again then fetch_loop env offset' file_ids' s' else Some (Inr file_ids', s'))"

definition fetch_file_ids :: "env \<Rightarrow> state \<Rightarrow> ((py_error + json list) \<times> state) option" where
  "fetch_file_ids env s = fetch_loop env 0 [] s"

section \<open>Link Extractor\<close>

text \<open>
  Line 168: \<open>gemini_response.get('candidates', [{}])[0].get('content', {}).get('parts',
  [{}])[0].get('text', 'None')\<close>.
\<close>

definition gemini_text :: "json \<Rightarrow> py_error + json" where
  "gemini_text gemini_response =
     (case py_get gemini_response ''candidates'' (JArr [JObj []]) of
        Inl e \<Rightarrow> Inl e
      | Inr candidates \<Rightarrow>
          (case py_index0 candidates of
             Inl e \<Rightarrow> Inl e
           | Inr candidate \<Rightarrow>
               (case py_get candidate ''content'' (JObj []) of
                  Inl e \<Rightarrow> Inl e
                | Inr content \<Rightarrow>
                    (case py_get content ''parts'' (JArr [JObj []]) of
                       Inl e \<Rightarrow> Inl e
                     | Inr parts \<Rightarrow>
                         (case py_index0 parts of
                            Inl e \<Rightarrow> Inl e
                          | Inr part \<Rightarrow> py_get part ''text'' (JStr ''None''))))))"

text \<open>Lines 165 to 178, the body of the \<open>try\<close>. The result \<open>JNull\<close> is \<open>return None\<close>.\<close>

definition extract_try :: "env \<Rightarrow> config \<Rightarrow> json \<Rightarrow> state \<Rightarrow> (py_error + json) \<times> state" where
  "extract_try env cfg response_data s =
     (let req = PostGemini (gemini_api_key cfg) response_data; s1 = emit (Request req) s in
      case respond env (trace s) req of
        Inl e \<Rightarrow> (Inl e, s1)
      | Inr gemini_response \<Rightarrow>
          (case gemini_text gemini_response of
             Inl e \<Rightarrow> (Inl e, s1)
           | Inr text_value \<Rightarrow>
               (case py_strip text_value of
                  Inl e \<Rightarrow> (Inl e, s1)
                | Inr extracted_text \<Rightarrow>
                    if extracted_text = ''None'' \<or> extracted_text = [] then
                      (Inr JNull, emit (Print LogGeminiNone) s1)
                    else if \<not> re_match_https extracted_text then
                      (Inr JNull, emit (Print (LogGeminiInvalid extracted_text)) s1)
                    else
                      (Inr (JStr extracted_text), emit (Print (LogGeminiLink extracted_text)) s1))))"

definition extract_permalink_with_gemini ::
  "env \<Rightarrow> config \<Rightarrow> json \<Rightarrow> state \<Rightarrow> (py_error + json) \<times> state"
where
  "extract_permalink_with_gemini env cfg response_data s =
     except_RequestException (extract_try env cfg response_data s)
       (\<lambda>e s'. (Inr JNull, emit (Print (LogGeminiError e)) s'))"

text \<open>
  The Link Extractor's parsing rule in the words of its description: trim, give no link
  for the sentinel or the empty text, give no link unless the text begins with
  \<open>http://\<close> or \<open>https://\<close>, otherwise give the trimmed text.
\<close>

definition resolved_link :: "string \<Rightarrow> json" where
  "resolved_link t =
     (let x = strip t in
      if x = ''None'' \<or> x = [] then JNull
      else if prefix ''http://'' x \<or> prefix ''https://'' x then JStr x
      else JNull)"

section \<open>Permission Setter\<close>

record permission_result =
  file_id :: json
  permalink :: json
  success :: bool

text \<open>Lines 131 to 145, the body of the \<open>try\<close>.\<close>

definition set_permissions_try ::
  "env \<Rightarrow> config \<Rightarrow> json \<Rightarrow> state \<Rightarrow> (py_error + permission_result) \<times> state"
where
  "set_permissions_try env cfg fid s =
     (let req = PostPermissions (zoho_headers s) fid; s1 = emit (Request req) s in
      case respond env (trace s) req of
        Inl e \<Rightarrow> (Inl e, s1)
      | Inr response_data \<Rightarrow>
          (let s2 = emit (Print (LogPermissionsSet fid response_data)) s1 in
           case py_get response_data ''data'' (JObj []) of
             Inl e \<Rightarrow> (Inl e, s2)
           | Inr d \<Rightarrow>
               (case py_get d ''attributes'' (JObj []) of
                  Inl e \<Rightarrow> (Inl e, s2)
                | Inr a \<Rightarrow>
                    (case py_get a ''permalink'' JNull of
                       Inl e \<Rightarrow> (Inl e, s2)
                     | Inr link \<Rightarrow>
                         if py_truthy link then
                           (Inr \<lparr>file_id = fid, permalink = link, success = True\<rparr>,
                            emit (Print (LogDirectPermalink fid link)) s2)
                         else
                           (case extract_permalink_with_gemini env cfg response_data
                                   (emit (Print (LogNoDirectPermalink fid)) s2) of
                              (Inl e, s3) \<Rightarrow> (Inl e, s3)
                            | (Inr link', s3) \<Rightarrow>
                                (Inr \<lparr>file_id = fid, permalink = link', success = True\<rparr>,
                                 emit (Print (LogGeminiPermalink fid link')) s3))))))"

definition set_permissions_and_get_permalink ::
  "env \<Rightarrow> config \<Rightarrow> json \<Rightarrow> state \<Rightarrow> (py_error + permission_result) \<times> state"
where
  "set_permissions_and_get_permalink env cfg fid s =
     except_RequestException (set_permissions_try env cfg fid s)
       (\<lambda>e s'. (Inr \<lparr>file_id = fid, permalink = JNull, success = False\<rparr>,
                 emit (Print (LogProcessError fid e)) s'))"

section \<open>Sheet Synchronizer\<close>

text \<open>
  Lines 54 to 60, the body of the \<open>try\<close>: \<open>creds\<close> is \<open>None\<close> unless the file exists, and
  the service is built only from valid credentials. Building the client object from
  valid credentials (\<open>build\<close>) sends nothing and is taken to succeed.
\<close>

definition get_google_sheets_service_try :: "env \<Rightarrow> state \<Rightarrow> (py_error + unit) \<times> state" where
  "get_google_sheets_service_try env s =
     (case (case TOKEN_PATH env (trace s) of
              NoFile \<Rightarrow> Inr None
            | BadFile e \<Rightarrow> Inl e
            | Token valid \<Rightarrow> Inr (Some valid)) of
        Inl e \<Rightarrow> (Inl e, s)
      | Inr creds \<Rightarrow>
          if creds = None \<or> creds = Some False then
            (Inl ValueError, emit (Print LogInvalidGoogleToken) s)
          else (Inr (), s))"

text \<open>\<open>except Exception as e\<close>: report and raise again.\<close>

definition get_google_sheets_service :: "env \<Rightarrow> state \<Rightarrow> (py_error + unit) \<times> state" where
  "get_google_sheets_service env s =
     (case get_google_sheets_service_try env s of
        (Inl e, s') \<Rightarrow> (Inl e, emit (Print (LogSheetsInitFailed e)) s')
      | (Inr service, s') \<Rightarrow> (Inr service, s'))"

text \<open>
  Line 191: \<open>set(value[0] for value in result.get('values', []) if value)\<close>. The set is
  kept as the list of its elements in the order they were added.
\<close>

fun first_cells :: "json list \<Rightarrow> py_error + json list" where
  "first_cells [] = Inr []"
| "first_cells (v # rest) =
     (if py_truthy v then
        (case py_index0 v of
           Inl e \<Rightarrow> Inl e
         | Inr x \<Rightarrow>
             if \<not> py_hashable x then Inl TypeError
             else (case first_cells rest of Inl e \<Rightarrow> Inl e | Inr xs \<Rightarrow> Inr (x # xs)))
      else first_cells rest)"

definition existing_ids_of :: "json \<Rightarrow> py_error + json list" where
  "existing_ids_of result =
     (case py_get result ''values'' (JArr []) of
        Inl e \<Rightarrow> Inl e
      | Inr vs \<Rightarrow> (case py_iter vs of Inl e \<Rightarrow> Inl e | Inr rows \<Rightarrow> first_cells rows))"

text \<open>Lines 195 to 201: the loop that keeps the pairs whose identifier is new.\<close>

fun filter_new ::
  "json list \<Rightarrow> (json \<times> json) list \<Rightarrow> (json \<times> json) list \<Rightarrow> state
     \<Rightarrow> (py_error + (json \<times> json) list) \<times> state"
where
  "filter_new existing_ids [] values_to_append s = (Inr values_to_append, s)"
| "filter_new existing_ids ((fid, link) # rest) values_to_append s =
     (case py_in_set fid existing_ids of
        Inl e \<Rightarrow> (Inl e, s)
      | Inr present \<Rightarrow>
          if \<not> present then
            filter_new existing_ids rest (values_to_append @ [(fid, link)])
              (emit (Print (LogWillAppend fid link)) s)
          else
            filter_new existing_ids rest values_to_append (emit (Print (LogSkipping fid)) s))"

text \<open>Lines 185 to 217, the body of the \<open>try\<close>.\<close>

definition append_try ::
  "env \<Rightarrow> config \<Rightarrow> (json \<times> json) list \<Rightarrow> state \<Rightarrow> (py_error + unit) \<times> state"
where
  "append_try env cfg results s =
     (case get_google_sheets_service env s of
        (Inl e, s1) \<Rightarrow> (Inl e, s1)
      | (Inr service, s1) \<Rightarrow>
          (let req = SheetsGet (SPREADSHEET_ID cfg) (SHEET_NAME @ ''!A2:A'');
               s2 = emit (Request req) s1 in
           case respond env (trace s1) req of
             Inl e \<Rightarrow> (Inl e, s2)
           | Inr result \<Rightarrow>
               (case existing_ids_of result of
                  Inl e \<Rightarrow> (Inl e, s2)
                | Inr existing_ids \<Rightarrow>
                    (case filter_new existing_ids results []
                            (emit (Print (LogExistingIds existing_ids)) s2) of
                       (Inl e, s3) \<Rightarrow> (Inl e, s3)
                     | (Inr values_to_append, s3) \<Rightarrow>
                         if values_to_append = [] then (Inr (), emit (Print LogNoNewIds) s3)
                         else
                           (let req' = SheetsAppend (SPREADSHEET_ID cfg) (SHEET_NAME @ ''!A2:B'')
                                         ''USER_ENTERED'' values_to_append;
                                s4 = emit (Request req') s3 in
                            case respond env (trace s3) req' of
                              Inl e \<Rightarrow> (Inl e, s4)
                            | Inr result' \<Rightarrow>
                                (case py_get result' ''updates'' (JObj []) of
                                   Inl e \<Rightarrow> (Inl e, s4)
                                 | Inr updates \<Rightarrow>
                                     (case py_get updates ''updatedRows'' (JNum 0) of
                                        Inl e \<Rightarrow> (Inl e, s4)
                                      | Inr n \<Rightarrow> (Inr (), emit (Print (LogAppended n)) s4))))))))"

text \<open>
  \<open>except HttpError as e\<close> and \<open>except Exception as e\<close>: both handlers print and fall
  through to the end of the function.
\<close>

definition append_to_google_sheet ::
  "env \<Rightarrow> config \<Rightarrow> (json \<times> json) list \<Rightarrow> state \<Rightarrow> (py_error + unit) \<times> state"
where
  "append_to_google_sheet env cfg results s =
     (case append_try env cfg results s of
        (Inl e, s') \<Rightarrow>
          if e = HttpError then (Inr (), emit (Print (LogAppendError e)) s')
          else (Inr (), emit (Print (LogUnexpected e)) s')
      | (Inr u, s') \<Rightarrow> (Inr u, s'))"

section \<open>Orchestrator\<close>

text \<open>Lines 235 to 240: the loop over the listed identifiers.\<close>

fun process_files ::
  "env \<Rightarrow> config \<Rightarrow> json list \<Rightarrow> (json \<times> json) list \<Rightarrow> state
     \<Rightarrow> (py_error + (json \<times> json) list) \<times> state"
where
  "process_files env cfg [] results s = (Inr results, s)"
| "process_files env cfg (fid # rest) results s =
     (case set_permissions_and_get_permalink env cfg fid (emit (Print (LogProcessing fid)) s) of
        (Inl e, s') \<Rightarrow> (Inl e, s')
      | (Inr result, s') \<Rightarrow>
          process_files env cfg rest
            (if success result \<and> py_truthy (permalink result)
             then results @ [(file_id result, permalink result)] else results)
            (emit (Sleep 1) s'))"

definition main :: "env \<Rightarrow> config \<Rightarrow> state \<Rightarrow> ((py_error + unit) \<times> state) option" where
  "main env cfg s =
     (case refresh_access_token env cfg (emit (Print LogRefreshing) s) of
        (Inl e, s1) \<Rightarrow> Some (Inl e, s1)
      | (Inr refreshed, s1) \<Rightarrow>
          if \<not> refreshed then Some (Inr (), emit (Print LogRefreshExit) s1)
          else
            (case fetch_file_ids env (emit (Print LogFetching) s1) of
               None \<Rightarrow> None
             | Some (Inl e, s2) \<Rightarrow> Some (Inl e, s2)
             | Some (Inr file_ids, s2) \<Rightarrow>
                 (case process_files env cfg file_ids []
                         (emit (Print (LogFound (length file_ids))) s2) of
                    (Inl e, s3) \<Rightarrow> Some (Inl e, s3)
                  | (Inr results, s3) \<Rightarrow>
                      if results \<noteq> [] then Some (append_to_google_sheet env cfg results s3)
                      else Some (Inr (), emit (Print LogNoValidResults) s3))))"

text \<open>What a history shows: the requests sent, and the rows handed to the spreadsheet.\<close>

fun requests_of :: "event list \<Rightarrow> request list" where
  "requests_of [] = []"
| "requests_of (Request r # es) = r # requests_of es"
| "requests_of (e # es) = requests_of es"

fun appended_rows :: "event list \<Rightarrow> (json \<times> json) list" where
  "appended_rows [] = []"
| "appended_rows (Request (SheetsAppend sid rng opt rows) # es) = rows @ appended_rows es"
| "appended_rows (e # es) = appended_rows es"

section \<open>Conditions named by the description\<close>

text \<open>
  A generative-text response from which the text is absent: the document is a dict and
  either has no \<open>candidates\<close>, or its first candidate is a dict that has no \<open>content\<close>, or
  that content is a dict that has no \<open>parts\<close>, or its first part is a dict that has no
  \<open>text\<close>; every list on the way is non-empty.
\<close>

definition is_dict :: "json \<Rightarrow> bool" where
  "is_dict v = (case v of JObj kvs \<Rightarrow> True | _ \<Rightarrow> False)"

definition field :: "string \<Rightarrow> json \<Rightarrow> json option" where
  "field k v = (case v of JObj kvs \<Rightarrow> map_of kvs k | _ \<Rightarrow> None)"

definition first_elem :: "json \<Rightarrow> json option" where
  "first_elem v = (case v of JArr xs \<Rightarrow> (case xs of [] \<Rightarrow> None | x # _ \<Rightarrow> Some x) | _ \<Rightarrow> None)"

definition part_lacks_text :: "json \<Rightarrow> bool" where
  "part_lacks_text part = (is_dict part \<and> field ''text'' part = None)"

definition content_lacks_text :: "json \<Rightarrow> bool" where
  "content_lacks_text content =
     (is_dict content \<and>
      (case field ''parts'' content of
         None \<Rightarrow> True
       | Some parts \<Rightarrow> (case first_elem parts of None \<Rightarrow> False | Some part \<Rightarrow> part_lacks_text part)))"

definition candidate_lacks_text :: "json \<Rightarrow> bool" where
  "candidate_lacks_text candidate =
     (is_dict candidate \<and>
      (case field ''content'' candidate of
         None \<Rightarrow> True
       | Some content \<Rightarrow> content_lacks_text content))"

definition text_absent :: "json \<Rightarrow> bool" where
  "text_absent r =
     (is_dict r \<and>
      (case field ''candidates'' r of
         None \<Rightarrow> True
       | Some candidates \<Rightarrow>
           (case first_elem candidates of
              None \<Rightarrow> False
            | Some candidate \<Rightarrow> candidate_lacks_text candidate)))"

text \<open>
  The listing, in the words of its description. \<open>file_id_of\<close> is a file record's \<open>id\<close>
  (\<open>None\<close> when it has none), \<open>ids_of\<close> the identifiers a sequence of records
  contributes, in order. The world \<open>serves\<close> a page at an offset when every listing
  request for that offset, with page size 50, is answered by a document whose \<open>data\<close>
  is that page. \<open>full_pages\<close> are pages of exactly 50 records served at successive
  offsets.
\<close>

definition file_id_of :: "json \<Rightarrow> json" where
  "file_id_of f = (case field ''id'' f of Some v \<Rightarrow> v | None \<Rightarrow> JNull)"

definition ids_of :: "json list \<Rightarrow> json list" where
  "ids_of files = filter py_truthy (map file_id_of files)"

definition has_id :: "json \<Rightarrow> bool" where
  "has_id f = (is_dict f \<and> py_truthy (file_id_of f))"

definition serves :: "env \<Rightarrow> nat \<Rightarrow> json list \<Rightarrow> bool" where
  "serves env offset files =
     (\<forall>tr h. \<exists>body. respond env tr (GetFiles h 50 offset) = Inr body \<and>
                   py_get body ''data'' (JArr []) = Inr (JArr files))"

fun full_pages :: "env \<Rightarrow> nat \<Rightarrow> json list list \<Rightarrow> bool" where
  "full_pages env offset [] = True"
| "full_pages env offset (p # ps) =
     (length p = 50 \<and> list_all is_dict p \<and> serves env offset p \<and> full_pages env (offset + 50) ps)"

text \<open>
  The answer of the token endpoint does not carry a token: the call raised, or the
  decoded body is not a dict with the key \<open>access_token\<close>.
\<close>

definition refresh_fails :: "py_error + json \<Rightarrow> bool" where
  "refresh_fails r = (case r of Inl e \<Rightarrow> True | Inr data \<Rightarrow> field ''access_token'' data = None)"

text \<open>
  The events that belong to listing and processing files: every request other than the
  token refresh, and the orchestrator's announcements of the listing and of each file.
\<close>

fun lists_or_processes :: "event \<Rightarrow> bool" where
  "lists_or_processes (Request (PostRefresh url)) = False"
| "lists_or_processes (Request r) = True"
| "lists_or_processes (Print LogFetching) = True"
| "lists_or_processes (Print (LogFound n)) = True"
| "lists_or_processes (Print (LogProcessing fid)) = True"
| "lists_or_processes e = False"

text \<open>
  Membership as the synchronizer's \<open>file_id not in existing_ids\<close> decides it, for an
  identifier that can be hashed.
\<close>

definition py_member :: "json \<Rightarrow> json list \<Rightarrow> bool" where
  "py_member x es = list_ex (py_eq x) es"

text \<open>
  The spreadsheet can be read in state \<open>s\<close> and its identifier column holds \<open>es\<close>: the
  token file carries valid credentials, and the column read answers with a document
  whose first cells are \<open>es\<close>.
\<close>

definition sheet_reads :: "env \<Rightarrow> config \<Rightarrow> state \<Rightarrow> json list \<Rightarrow> bool" where
  "sheet_reads env cfg s es =
     (TOKEN_PATH env (trace s) = Token True \<and>
      (case respond env (trace s) (SheetsGet (SPREADSHEET_ID cfg) ''Sheet1!A2:A'') of
         Inl e \<Rightarrow> False
       | Inr result \<Rightarrow> existing_ids_of result = Inr es))"



section \<open>Concrete worlds\<close>

text \<open>Inputs on which the theorems below are exercised.\<close>

definition example_config :: config where
  "example_config =
     \<lparr>ZOHO_REFRESH_TOKEN = Some ''refresh'', ZOHO_CLIENT_ID = Some ''client'',
      ZOHO_CLIENT_SECRET = Some ''secret'', gemini_api_key = Some ''key'',
      SPREADSHEET_ID = Some ''sheet''\<rparr>"

text \<open>A world whose answers do not depend on the history.\<close>

definition world :: "(request \<Rightarrow> py_error + json) \<Rightarrow> token_file \<Rightarrow> env" where
  "world answer tf = \<lparr>respond = (\<lambda>tr. answer), TOKEN_PATH = (\<lambda>tr. tf), py_str = (\<lambda>v. ''?'')\<rparr>"

text \<open>A generative-text service that answers with the very document it was sent.\<close>

definition mirror :: env where
  "mirror = world (\<lambda>req. case req of PostGemini k rd \<Rightarrow> Inr rd | _ \<Rightarrow> Inl RequestException) NoFile"

definition gemini_answer :: "string \<Rightarrow> json" where
  "gemini_answer t =
     JObj [(''candidates'', JArr [JObj [(''content'', JObj [(''parts'', JArr [JObj [(''text'', JStr t)]])])]])]"

text \<open>The refresh token is set, to the empty string.\<close>

definition empty_refresh_token_config :: config where
  "empty_refresh_token_config = example_config\<lparr>ZOHO_REFRESH_TOKEN := Some []\<rparr>"

text \<open>A network on which every call fails, and a token endpoint that answers with an error document.\<close>

definition unreachable :: env where
  "unreachable = world (\<lambda>req. Inl RequestException) NoFile"

definition token_error_body :: env where
  "token_error_body = world (\<lambda>req. Inr (JObj [(''error'', JStr ''invalid_code'')])) NoFile"

text \<open>
  A file store: the token endpoint grants \<open>tok\<close>, the listing serves the folder in
  windows, a permission request is refused with a transport error for the file
  \<open>locked\<close> and answered with a permalink for any other, and neither the
  generative-text service nor the spreadsheet can be reached.
\<close>

definition token_body :: json where
  "token_body = JObj [(''access_token'', JStr ''tok'')]"

definition file_record :: "string \<Rightarrow> json" where
  "file_record fid = JObj [(''id'', JStr fid), (''type'', JStr ''files'')]"

definition permalink_body :: "string \<Rightarrow> json" where
  "permalink_body url = JObj [(''data'', JObj [(''attributes'', JObj [(''permalink'', JStr url)])])]"

definition drive :: "json list \<Rightarrow> token_file \<Rightarrow> env" where
  "drive files tf =
     world (\<lambda>req. case req of
              PostRefresh url \<Rightarrow> Inr token_body
            | GetFiles h l off \<Rightarrow> Inr (JObj [(''data'', JArr (take l (drop off files)))])
            | PostPermissions h fid \<Rightarrow>
                if fid = JStr ''locked'' then Inl RequestException
                else Inr (permalink_body ''https://workdrive.example/f'')
            | PostGemini k rd \<Rightarrow> Inl RequestException
            | SheetsGet sid rng \<Rightarrow> Inl HttpError
            | SheetsAppend sid rng opt rows \<Rightarrow> Inl HttpError) tf"

text \<open>A folder of 120 files with distinct names.\<close>

definition file_name :: "nat \<Rightarrow> string" where
  "file_name i = CHR ''f'' # replicate i (CHR ''x'')"

definition folder120 :: "json list" where
  "folder120 = map (\<lambda>i. file_record (file_name i)) [0..<120]"


text \<open>
  A spreadsheet whose identifier column holds \<open>ids\<close> and then the first cells of every
  row that the history shows as appended.
\<close>

definition spreadsheet :: "json list \<Rightarrow> env" where
  "spreadsheet ids =
     \<lparr>respond = (\<lambda>tr req. case req of
          SheetsGet sid rng \<Rightarrow>
            Inr (JObj [(''values'', JArr (map (\<lambda>f. JArr [f]) (ids @ map fst (appended_rows tr))))])
        | SheetsAppend sid rng opt rows \<Rightarrow>
            Inr (JObj [(''updates'', JObj [(''updatedRows'', JNum (int (length rows)))])])
        | _ \<Rightarrow> Inl RequestException),
      TOKEN_PATH = (\<lambda>tr. Token True),
      py_str = (\<lambda>v. ''?'')\<rparr>"

section \<open>Basic facts\<close>

lemma trace_emit [simp]: "trace (emit e s) = trace s @ [e]"
  by (simp add: emit_def)

lemma globals_emit [simp]:
  "zoho_auth_token (emit e s) = zoho_auth_token s" "zoho_headers (emit e s) = zoho_headers s"
  by (simp_all add: emit_def)

lemma requests_of_append [simp]: "requests_of (xs @ ys) = requests_of xs @ requests_of ys"
  by (induction xs rule: requests_of.induct) simp_all

lemma appended_rows_append [simp]: "appended_rows (xs @ ys) = appended_rows xs @ appended_rows ys"
  by (induction xs rule: appended_rows.induct) simp_all

section \<open>Link Extractor: parsing the answer\<close>

lemma re_match_https_prefix: "re_match_https s = (prefix ''http://'' s \<or> prefix ''https://'' s)"
  by (auto simp: re_match_https_def literal_def prefix_def)

lemma strip_None: "strip ''None'' = ''None''"
  by (simp add: strip_def py_isspace_def)

text \<open>\<open>strip\<close> removes a run of whitespace at each end and leaves none there.\<close>

lemma strip_middle:
  "dropWhile py_isspace s = strip s @ rev (takeWhile py_isspace (rev (dropWhile py_isspace s)))"
proof -
  have "rev (strip s @ rev (takeWhile py_isspace (rev (dropWhile py_isspace s)))) =
        takeWhile py_isspace (rev (dropWhile py_isspace s)) @
        dropWhile py_isspace (rev (dropWhile py_isspace s))"
    by (simp add: strip_def)
  then have "rev (strip s @ rev (takeWhile py_isspace (rev (dropWhile py_isspace s)))) =
        rev (dropWhile py_isspace s)"
    by (simp only: takeWhile_dropWhile_id)
  then show ?thesis
    by (simp only: rev_is_rev_conv)
qed

lemma strip_decomposes:
  "s = takeWhile py_isspace s @ strip s @ rev (takeWhile py_isspace (rev (dropWhile py_isspace s)))"
proof -
  have "s = takeWhile py_isspace s @ dropWhile py_isspace s"
    by simp
  also have "dropWhile py_isspace s =
      strip s @ rev (takeWhile py_isspace (rev (dropWhile py_isspace s)))"
    by (rule strip_middle)
  finally show ?thesis .
qed

lemma strip_ends:
  assumes "strip s \<noteq> []"
  shows "\<not> py_isspace (hd (strip s)) \<and> \<not> py_isspace (last (strip s))"
proof
  have r: "dropWhile py_isspace (rev (dropWhile py_isspace s)) \<noteq> []"
    using assms by (simp add: strip_def)
  then have "\<not> py_isspace (hd (dropWhile py_isspace (rev (dropWhile py_isspace s))))"
    by (rule hd_dropWhile)
  then show "\<not> py_isspace (last (strip s))"
    using r by (simp add: strip_def last_rev)
  have "dropWhile py_isspace s \<noteq> []"
  proof
    assume "dropWhile py_isspace s = []"
    then have "strip s = []"
      by (simp only: strip_def rev.simps dropWhile.simps)
    with assms show False by simp
  qed
  then have h: "\<not> py_isspace (hd (dropWhile py_isspace s))"
    by (rule hd_dropWhile)
  have "hd (strip s @ rev (takeWhile py_isspace (rev (dropWhile py_isspace s)))) = hd (strip s)"
    using assms by (rule hd_append2)
  then have "hd (dropWhile py_isspace s) = hd (strip s)"
    by (simp only: strip_middle [symmetric])
  then show "\<not> py_isspace (hd (strip s))"
    using h by simp
qed

lemma strip_trims:
  "\<exists>a b. s = a @ strip s @ b \<and> list_all py_isspace a \<and> list_all py_isspace b"
proof -
  have "list_all py_isspace (takeWhile py_isspace s)"
    unfolding list_all_iff by (blast dest: set_takeWhileD)
  moreover have "list_all py_isspace (rev (takeWhile py_isspace (rev (dropWhile py_isspace s))))"
    unfolding list_all_iff set_rev by (blast dest: set_takeWhileD)
  ultimately show ?thesis
    using strip_decomposes [of s] by blast
qed


text \<open>
  C4. Whatever text \<open>t\<close> the generative-text service returns, the extractor trims it and
  gives no link when the trimmed text is the sentinel \<open>None\<close> or empty, no link when it
  does not begin with \<open>http://\<close> or \<open>https://\<close>, and the trimmed text itself otherwise.
\<close>

theorem extract_permalink_parses_text:
  assumes "respond env (trace s) (PostGemini (gemini_api_key cfg) response_data) = Inr gemini_response"
      and "gemini_text gemini_response = Inr (JStr t)"
  shows "fst (extract_permalink_with_gemini env cfg response_data s) = Inr (resolved_link t)"
  using assms
  by (simp add: extract_permalink_with_gemini_def extract_try_def except_RequestException_def
      resolved_link_def py_strip_def Let_def re_match_https_prefix)

theorem extract_permalink_parses_text_witness:
  "fst (extract_permalink_with_gemini mirror example_config (gemini_answer ''None'') init_state)
     = Inr JNull \<and>
   fst (extract_permalink_with_gemini mirror example_config (gemini_answer ''not-a-url'') init_state)
     = Inr JNull \<and>
   fst (extract_permalink_with_gemini mirror example_config
          (gemini_answer ('' https://example.com/f'' @ [CHR 0x0A])) init_state)
     = Inr (JStr ''https://example.com/f'')"
proof -
  have answered: "respond mirror (trace init_state)
      (PostGemini (gemini_api_key example_config) (gemini_answer t)) = Inr (gemini_answer t)" for t
    by (simp add: mirror_def world_def)
  have found: "gemini_text (gemini_answer t) = Inr (JStr t)" for t
    by (simp add: gemini_answer_def gemini_text_def py_get_def py_index0_def)
  show ?thesis
    using extract_permalink_parses_text [OF answered found, of "''None''"]
      extract_permalink_parses_text [OF answered found, of "''not-a-url''"]
      extract_permalink_parses_text [OF answered found, of "'' https://example.com/f'' @ [CHR 0x0A]"]
    by (simp add: resolved_link_def strip_def py_isspace_def)
qed

section \<open>Link Extractor: defaults of the nested lookups\<close>

lemma part_default:
  "part_lacks_text part \<Longrightarrow> py_get part ''text'' (JStr ''None'') = Inr (JStr ''None'')"
  by (auto simp: part_lacks_text_def is_dict_def field_def py_get_def split: json.splits)

lemma first_elem_index0: "first_elem v = Some x \<Longrightarrow> py_index0 v = Inr x"
  by (auto simp: first_elem_def py_index0_def split: json.splits list.splits)

lemma content_default:
  assumes "content_lacks_text content"
  shows "(case py_get content ''parts'' (JArr [JObj []]) of
            Inl e \<Rightarrow> Inl e
          | Inr parts \<Rightarrow>
              (case py_index0 parts of
                 Inl e \<Rightarrow> Inl e
               | Inr part \<Rightarrow> py_get part ''text'' (JStr ''None''))) = Inr (JStr ''None'')"
proof -
  obtain kvs where c: "content = JObj kvs"
    using assms by (auto simp: content_lacks_text_def is_dict_def split: json.splits)
  show ?thesis
  proof (cases "map_of kvs ''parts''")
    case None
    then show ?thesis
      by (simp add: c py_get_def py_index0_def)
  next
    case (Some parts)
    then obtain part where "first_elem parts = Some part" and "part_lacks_text part"
      using assms by (auto simp: content_lacks_text_def c field_def split: option.splits)
    then show ?thesis
      using Some by (simp add: c py_get_def [of "JObj kvs"] first_elem_index0 part_default)
  qed
qed

lemma candidate_default:
  assumes "candidate_lacks_text candidate"
  shows "(case py_get candidate ''content'' (JObj []) of
            Inl e \<Rightarrow> Inl e
          | Inr content \<Rightarrow>
              (case py_get content ''parts'' (JArr [JObj []]) of
                 Inl e \<Rightarrow> Inl e
               | Inr parts \<Rightarrow>
                   (case py_index0 parts of
                      Inl e \<Rightarrow> Inl e
                    | Inr part \<Rightarrow> py_get part ''text'' (JStr ''None'')))) = Inr (JStr ''None'')"
proof -
  obtain kvs where c: "candidate = JObj kvs"
    using assms by (auto simp: candidate_lacks_text_def is_dict_def split: json.splits)
  show ?thesis
  proof (cases "map_of kvs ''content''")
    case None
    then show ?thesis
      by (simp add: c py_get_def py_index0_def)
  next
    case (Some content)
    then have "content_lacks_text content"
      using assms by (simp add: candidate_lacks_text_def c field_def)
    then show ?thesis
      using Some content_default [of content] by (simp add: c py_get_def [of "JObj kvs"])
  qed
qed

lemma gemini_text_absent:
  assumes "text_absent r"
  shows "gemini_text r = Inr (JStr ''None'')"
proof -
  obtain kvs where r: "r = JObj kvs"
    using assms by (auto simp: text_absent_def is_dict_def split: json.splits)
  show ?thesis
  proof (cases "map_of kvs ''candidates''")
    case None
    then show ?thesis
      by (simp add: r gemini_text_def py_get_def py_index0_def)
  next
    case (Some candidates)
    then obtain candidate where f: "first_elem candidates = Some candidate"
      and "candidate_lacks_text candidate"
      using assms by (auto simp: text_absent_def r field_def split: option.splits)
    then show ?thesis
      using Some candidate_default [of candidate]
      by (simp add: r gemini_text_def py_get_def [of "JObj kvs"] first_elem_index0)
  qed
qed

text \<open>
  C10. When the text is absent from the generative-text response in the sense of
  \<open>text_absent\<close>, none of the nested lookups raises: they end in the sentinel \<open>None\<close>, and
  the extractor returns no link.
\<close>

theorem extract_permalink_defaults_to_sentinel:
  assumes "respond env (trace s) (PostGemini (gemini_api_key cfg) response_data) = Inr gemini_response"
      and "text_absent gemini_response"
  shows "gemini_text gemini_response = Inr (JStr ''None'') \<and>
         extract_permalink_with_gemini env cfg response_data s =
           (Inr JNull,
            emit (Print LogGeminiNone)
              (emit (Request (PostGemini (gemini_api_key cfg) response_data)) s))"
  using assms gemini_text_absent [of gemini_response]
  by (simp add: extract_permalink_with_gemini_def extract_try_def except_RequestException_def
      py_strip_def strip_None Let_def)

theorem extract_permalink_defaults_to_sentinel_witness:
  "fst (extract_permalink_with_gemini mirror example_config (JObj []) init_state) = Inr JNull \<and>
   fst (extract_permalink_with_gemini mirror example_config
          (JObj [(''candidates'', JArr [JObj [(''content'', JObj [(''parts'', JArr [JObj []])])]])])
          init_state) = Inr JNull"
proof -
  have answered: "respond mirror (trace init_state)
      (PostGemini (gemini_api_key example_config) rd) = Inr rd" for rd
    by (simp add: mirror_def world_def)
  have a: "text_absent (JObj [])"
    by (simp add: text_absent_def is_dict_def field_def)
  have b: "text_absent
      (JObj [(''candidates'', JArr [JObj [(''content'', JObj [(''parts'', JArr [JObj []])])]])])"
    by (simp add: text_absent_def candidate_lacks_text_def content_lacks_text_def
        part_lacks_text_def is_dict_def field_def first_elem_def)
  show ?thesis
    using extract_permalink_defaults_to_sentinel [OF answered a]
      extract_permalink_defaults_to_sentinel [OF answered b]
    by simp
qed

section \<open>Properties of the Token Refresher\<close>

lemma refresh_try_False:
  assumes "refresh_try env cfg s = (Inr False, s')"
  shows "zoho_auth_token s' = zoho_auth_token s \<and> zoho_headers s' = zoho_headers s"
  using assms
  by (auto simp: refresh_try_def Let_def split: sum.splits if_splits)

text \<open>
  C9. Whenever \<open>refresh_access_token\<close> returns \<open>False\<close>, the process-wide authorization
  state is as it was before the call: \<open>zoho_auth_token\<close> and \<open>zoho_headers\<close> (its
  \<open>Authorization\<close> entry with it) are unchanged, so from the initial state both are still
  \<open>None\<close>.
\<close>

theorem refresh_failure_keeps_authorization:
  assumes "refresh_access_token env cfg s = (Inr False, s')"
  shows "zoho_auth_token s' = zoho_auth_token s \<and> zoho_headers s' = zoho_headers s"
proof (cases "refresh_try env cfg s")
  case (Pair r s1)
  show ?thesis
  proof (cases r)
    case (Inl e)
    with Pair assms show ?thesis
      by (auto simp: refresh_access_token_def except_RequestException_def refresh_try_def Let_def
          split: if_splits sum.splits)
  next
    case (Inr b)
    with Pair assms refresh_try_False [of env cfg s s1] show ?thesis
      by (auto simp: refresh_access_token_def except_RequestException_def split: if_splits)
  qed
qed


theorem refresh_failure_keeps_authorization_witness:
  "refresh_access_token unreachable example_config init_state =
     (Inr False, snd (refresh_access_token unreachable example_config init_state)) \<and>
   zoho_auth_token (snd (refresh_access_token unreachable example_config init_state)) = None \<and>
   Authorization (zoho_headers (snd (refresh_access_token unreachable example_config init_state))) = None \<and>
   refresh_access_token token_error_body example_config init_state =
     (Inr False, snd (refresh_access_token token_error_body example_config init_state)) \<and>
   zoho_auth_token (snd (refresh_access_token token_error_body example_config init_state)) = None \<and>
   Authorization (zoho_headers (snd (refresh_access_token token_error_body example_config init_state))) = None"
proof -
  have a: "refresh_access_token unreachable example_config init_state =
     (Inr False, snd (refresh_access_token unreachable example_config init_state))"
    by (simp add: refresh_access_token_def refresh_try_def except_RequestException_def
        unreachable_def world_def example_config_def Let_def)
  have b: "refresh_access_token token_error_body example_config init_state =
     (Inr False, snd (refresh_access_token token_error_body example_config init_state))"
    by (simp add: refresh_access_token_def refresh_try_def except_RequestException_def
        token_error_body_def world_def example_config_def Let_def py_contains_def py_get_def)
  show ?thesis
    using a b refresh_failure_keeps_authorization [OF a] refresh_failure_keeps_authorization [OF b]
    by (simp add: init_state_def)
qed

lemma refresh_not_True:
  assumes "refresh_fails (respond env (trace s) (PostRefresh (refresh_url cfg)))"
  shows "fst (refresh_access_token env cfg s) \<noteq> Inr True"
  using assms
  by (auto simp: refresh_fails_def field_def refresh_access_token_def refresh_try_def
      except_RequestException_def Let_def py_contains_def py_getitem_def py_get_def
      split: sum.splits json.splits if_splits option.splits)

lemma refresh_trace:
  "\<exists>new. trace (snd (refresh_access_token env cfg s)) = trace s @ new \<and>
         filter lists_or_processes new = []"
  by (auto simp: refresh_access_token_def refresh_try_def except_RequestException_def Let_def
      split: sum.splits if_splits)

text \<open>
  C5. If the token refresh raises or its body lacks \<open>access_token\<close>, the run ends before
  any file is listed: \<open>main\<close> returns, and its history gains no listing request, no
  permission request and no announcement of the listing or of a file.
\<close>

theorem main_aborts_on_refresh_failure:
  assumes "refresh_fails (respond env (trace s @ [Print LogRefreshing]) (PostRefresh (refresh_url cfg)))"
  shows "\<exists>out s'. main env cfg s = Some (out, s') \<and>
           filter lists_or_processes (trace s') = filter lists_or_processes (trace s)"
proof -
  let ?s0 = "emit (Print LogRefreshing) s"
  obtain r s1 where run: "refresh_access_token env cfg ?s0 = (r, s1)"
    by (cases "refresh_access_token env cfg ?s0")
  have "r \<noteq> Inr True"
    using refresh_not_True [of env ?s0 cfg] assms run by simp
  moreover obtain new where "trace s1 = trace ?s0 @ new" and "filter lists_or_processes new = []"
    using refresh_trace [of env cfg ?s0] run by auto
  ultimately show ?thesis
    using run by (cases r) (auto simp: main_def)
qed


theorem main_aborts_on_refresh_failure_witness:
  "refresh_fails (respond token_error_body (trace init_state @ [Print LogRefreshing])
      (PostRefresh (refresh_url example_config))) \<and>
   (\<exists>out s'. main token_error_body example_config init_state = Some (out, s') \<and>
      filter lists_or_processes (trace s') = [])"
proof -
  have a: "refresh_fails (respond token_error_body (trace init_state @ [Print LogRefreshing])
      (PostRefresh (refresh_url example_config)))"
    by (simp add: refresh_fails_def token_error_body_def world_def field_def)
  show ?thesis
    using a main_aborts_on_refresh_failure [OF a] by (simp add: init_state_def)
qed

text \<open>
  What the configuration check does establish: a Zoho value that is not set, or a
  generative-API key or spreadsheet id that is not set or empty, makes the refresher
  return \<open>False\<close> without sending anything.
\<close>

lemma refresh_missing_configuration:
  assumes "ZOHO_REFRESH_TOKEN cfg = None \<or> ZOHO_CLIENT_ID cfg = None \<or> ZOHO_CLIENT_SECRET cfg = None
           \<or> gemini_api_key cfg = None \<or> gemini_api_key cfg = Some []
           \<or> SPREADSHEET_ID cfg = None \<or> SPREADSHEET_ID cfg = Some []"
  shows "fst (refresh_access_token env cfg s) = Inr False \<and>
         requests_of (trace (snd (refresh_access_token env cfg s))) = requests_of (trace s)"
proof -
  have "requests_of (tr @ [Print l]) = requests_of tr" for tr l
    by (induction tr rule: requests_of.induct) simp_all
  then show ?thesis
    using assms by (auto simp: refresh_access_token_def)
qed

text \<open>
  C6. The claim is that an empty value among the five required settings stops the
  refresher before any network call. With \<open>ZOHO_REFRESH_TOKEN\<close> set to the empty string
  (and the other four values present) the check \<open>None in refresh_params.values()\<close> passes,
  and the refresh request is sent, with an empty \<open>refresh_token\<close> parameter.
\<close>

theorem refresh_empty_zoho_value_sends_request:
  "requests_of (trace (snd (refresh_access_token unreachable empty_refresh_token_config init_state))) =
     [PostRefresh
        ''https://accounts.zoho.in/oauth/v2/token?refresh_token=&client_id=client&client_secret=secret&grant_type=refresh_token'']"
  by (simp add: refresh_access_token_def refresh_try_def except_RequestException_def
      unreachable_def world_def empty_refresh_token_config_def example_config_def Let_def
      init_state_def refresh_url_def format_param_def)

section \<open>Properties of the File Lister\<close>

lemma collect_ids_dicts:
  "list_all is_dict fs \<Longrightarrow> collect_ids fs acc = Inr (acc @ ids_of fs)"
proof (induction fs arbitrary: acc)
  case Nil
  then show ?case by (simp add: ids_of_def)
next
  case (Cons f fs)
  then obtain kvs where f: "f = JObj kvs"
    by (auto simp: is_dict_def split: json.splits)
  have "py_get f ''id'' JNull = Inr (file_id_of f)"
    by (simp add: f py_get_def file_id_of_def field_def split: option.splits)
  then show ?case
    using Cons by (simp add: ids_of_def)
qed

lemma fetch_page_full:
  assumes "serves env offset p" and "length p = 50" and "list_all is_dict p"
  shows "fetch_page env offset acc s =
           (Inr (acc @ ids_of p, offset + 50, True),
            emit (Sleep 1) (emit (Request (GetFiles (zoho_headers s) 50 offset)) s))"
proof -
  obtain body where "respond env (trace s) (GetFiles (zoho_headers s) 50 offset) = Inr body"
    and "py_get body ''data'' (JArr []) = Inr (JArr p)"
    using assms(1) unfolding serves_def by blast
  moreover have "p \<noteq> []"
    using assms(2) by auto
  ultimately show ?thesis
    using assms(2) collect_ids_dicts [OF assms(3), of acc]
    by (simp add: fetch_page_def fetch_page_try_def except_RequestException_def Let_def
        limit_def py_iter_def py_len_def)
qed

lemma fetch_page_short:
  assumes "serves env offset p" and "length p < 50" and "list_all is_dict p"
  shows "fetch_page env offset acc s =
           (Inr (acc @ ids_of p, offset, False),
            emit (Request (GetFiles (zoho_headers s) 50 offset)) s)"
proof -
  obtain body where "respond env (trace s) (GetFiles (zoho_headers s) 50 offset) = Inr body"
    and "py_get body ''data'' (JArr []) = Inr (JArr p)"
    using assms(1) unfolding serves_def by blast
  then show ?thesis
    using assms(2) collect_ids_dicts [OF assms(3), of acc]
    by (cases "p = []")
      (simp_all add: fetch_page_def fetch_page_try_def except_RequestException_def Let_def
        limit_def py_iter_def py_len_def ids_of_def)
qed

lemma fetch_loop_pages:
  assumes "full_pages env offset ps"
      and "serves env (offset + 50 * length ps) lastp"
      and "length lastp < 50" and "list_all is_dict lastp"
  shows "\<exists>s'. fetch_loop env offset acc s = Some (Inr (acc @ ids_of (concat ps @ lastp)), s') \<and>
           requests_of (trace s') =
             requests_of (trace s) @
               map (\<lambda>i. GetFiles (zoho_headers s) 50 (offset + 50 * i)) [0..<Suc (length ps)]"
  using assms(1,2)
proof (induction ps arbitrary: offset acc s)
  case Nil
  then have "serves env offset lastp" by simp
  then show ?case
    using fetch_page_short [OF _ assms(3,4), of env offset acc s]
    by (subst fetch_loop.simps) simp
next
  case (Cons p ps)
  let ?s1 = "emit (Sleep 1) (emit (Request (GetFiles (zoho_headers s) 50 offset)) s)"
  have page: "fetch_page env offset acc s = (Inr (acc @ ids_of p, offset + 50, True), ?s1)"
    using Cons.prems(1) by (intro fetch_page_full) simp_all
  have "full_pages env (offset + 50) ps" and "serves env ((offset + 50) + 50 * length ps) lastp"
    using Cons.prems by (simp_all add: add.assoc)
  then obtain s' where
    run: "fetch_loop env (offset + 50) (acc @ ids_of p) ?s1 =
            Some (Inr ((acc @ ids_of p) @ ids_of (concat ps @ lastp)), s')"
    and reqs: "requests_of (trace s') =
            requests_of (trace ?s1) @
              map (\<lambda>i. GetFiles (zoho_headers ?s1) 50 ((offset + 50) + 50 * i)) [0..<Suc (length ps)]"
    using Cons.IH [of "offset + 50" "acc @ ids_of p" ?s1] by blast
  have ids: "(acc @ ids_of p) @ ids_of (concat ps @ lastp) = acc @ ids_of (concat (p # ps) @ lastp)"
    by (simp add: ids_of_def)
  have shift: "map (\<lambda>i. GetFiles (zoho_headers s) 50 (offset + 50 * i)) [0..<Suc (length (p # ps))] =
      GetFiles (zoho_headers s) 50 offset #
        map (\<lambda>i. GetFiles (zoho_headers s) 50 ((offset + 50) + 50 * i)) [0..<Suc (length ps)]"
  proof -
    have "[0..<Suc (length (p # ps))] = 0 # map Suc [0..<Suc (length ps)]"
      by (simp add: upt_conv_Cons map_Suc_upt del: upt_Suc)
    then show ?thesis
      by (simp add: comp_def add.assoc del: upt_Suc)
  qed
  have "fetch_loop env offset acc s = fetch_loop env (offset + 50) (acc @ ids_of p) ?s1"
    by (subst fetch_loop.simps) (simp add: page)
  then show ?case
    using run reqs unfolding ids shift by simp
qed


lemma full_pages_indexed:
  assumes "\<forall>i<length ps. length (ps ! i) = 50 \<and> list_all is_dict (ps ! i) \<and>
             serves env (offset + 50 * i) (ps ! i)"
  shows "full_pages env offset ps"
  using assms
proof (induction ps arbitrary: offset)
  case Nil
  then show ?case by simp
next
  case (Cons p ps)
  have "length p = 50 \<and> list_all is_dict p \<and> serves env offset p"
    using Cons.prems by force
  moreover have "\<forall>i<length ps. length (ps ! i) = 50 \<and> list_all is_dict (ps ! i) \<and>
             serves env ((offset + 50) + 50 * i) (ps ! i)"
  proof (intro allI impI)
    fix i assume "i < length ps"
    then have "Suc i < length (p # ps)" by simp
    then show "length (ps ! i) = 50 \<and> list_all is_dict (ps ! i) \<and>
             serves env ((offset + 50) + 50 * i) (ps ! i)"
      using Cons.prems by (fastforce simp: add.assoc)
  qed
  ultimately show ?case
    using Cons.IH [of "offset + 50"] by simp
qed

lemma ids_of_has_id: "list_all has_id files \<Longrightarrow> ids_of files = map file_id_of files"
  by (induction files) (simp_all add: ids_of_def has_id_def)

lemma has_id_is_dict: "list_all has_id files \<Longrightarrow> list_all is_dict files"
  by (simp add: list_all_iff has_id_def)

lemma fetch_folder_120:
  assumes "length files = 120" and "list_all has_id files"
      and "\<forall>off. serves env off (take 50 (drop off files))"
  shows "\<exists>s'. fetch_file_ids env s = Some (Inr (map file_id_of files), s') \<and>
           requests_of (trace s') =
             requests_of (trace s) @
               [GetFiles (zoho_headers s) 50 0, GetFiles (zoho_headers s) 50 50,
                GetFiles (zoho_headers s) 50 100]"
proof -
  let ?p0 = "take 50 files" and ?p1 = "take 50 (drop 50 files)" and ?p2 = "take 50 (drop 100 files)"
  have dicts: "list_all is_dict files"
    using assms(2) by (rule has_id_is_dict)
  then have d: "list_all is_dict (take n (drop m files))" for n m
    by (auto simp: list_all_iff dest: in_set_takeD in_set_dropD)
  have s0: "serves env 0 ?p0" and s1: "serves env 50 ?p1" and s2: "serves env 100 ?p2"
    using assms(3) [rule_format, of 0] assms(3) [rule_format, of 50] assms(3) [rule_format, of 100]
    by simp_all
  have "list_all is_dict ?p0"
    using d [of 50 0] by simp
  then have full: "full_pages env 0 [?p0, ?p1]"
    using assms(1) s0 s1 d [of 50 50] by simp
  have all: "?p0 @ ?p1 @ ?p2 = files"
  proof -
    have "?p2 = drop 50 (drop 50 files)"
      using assms(1) by simp
    then show ?thesis
      by (simp del: drop_drop)
  qed
  obtain s' where "fetch_loop env 0 [] s = Some (Inr ([] @ ids_of (concat [?p0, ?p1] @ ?p2)), s')"
    and "requests_of (trace s') =
           requests_of (trace s) @
             map (\<lambda>i. GetFiles (zoho_headers s) 50 (0 + 50 * i)) [0..<Suc (length [?p0, ?p1])]"
    using fetch_loop_pages [OF full, of ?p2 "[]" s] s2 assms(1) d [of 50 100] by auto
  then show ?thesis
    using ids_of_has_id [OF assms(2)]
    by (simp add: all fetch_file_ids_def upt_conv_Cons del: upt_Suc)
qed

text \<open>
  C2. The lister asks for pages of 50 at offsets 0, 50, 100 and so on, goes on after
  every page of exactly 50 records and stops at the first page with fewer (none
  included): it returns the identifiers of all the pages in order, having sent one
  request for each. In particular, for a folder of exactly 120 files served in windows
  of 50, the pages hold 50, 50 and 20 records, exactly three requests are sent, and the
  120 identifiers are returned in the folder's order.
\<close>

theorem fetch_file_ids_pagination:
  "((\<forall>i<length ps. length (ps ! i) = 50 \<and> list_all is_dict (ps ! i) \<and> serves env (50 * i) (ps ! i))
      \<and> length lastp < 50 \<and> list_all is_dict lastp \<and> serves env (50 * length ps) lastp
    \<longrightarrow> (\<exists>s'. fetch_file_ids env s = Some (Inr (ids_of (concat ps @ lastp)), s') \<and>
           requests_of (trace s') =
             requests_of (trace s) @
               map (\<lambda>i. GetFiles (zoho_headers s) 50 (50 * i)) [0..<Suc (length ps)])) \<and>
   (length files = 120 \<and> list_all has_id files \<and> (\<forall>off. serves env off (take 50 (drop off files)))
    \<longrightarrow> map length [take 50 files, take 50 (drop 50 files), take 50 (drop 100 files)] = [50, 50, 20] \<and>
        (\<exists>s'. fetch_file_ids env s = Some (Inr (map file_id_of files), s') \<and>
           requests_of (trace s') =
             requests_of (trace s) @
               [GetFiles (zoho_headers s) 50 0, GetFiles (zoho_headers s) 50 50,
                GetFiles (zoho_headers s) 50 100]))"
proof (intro conjI impI)
  assume a: "(\<forall>i<length ps. length (ps ! i) = 50 \<and> list_all is_dict (ps ! i) \<and> serves env (50 * i) (ps ! i))
      \<and> length lastp < 50 \<and> list_all is_dict lastp \<and> serves env (50 * length ps) lastp"
  then have "full_pages env 0 ps"
    by (intro full_pages_indexed) simp
  then show "\<exists>s'. fetch_file_ids env s = Some (Inr (ids_of (concat ps @ lastp)), s') \<and>
           requests_of (trace s') =
             requests_of (trace s) @
               map (\<lambda>i. GetFiles (zoho_headers s) 50 (50 * i)) [0..<Suc (length ps)]"
    using fetch_loop_pages [of env 0 ps lastp "[]" s] a
    by (simp add: fetch_file_ids_def del: upt_Suc)
next
  assume "length files = 120 \<and> list_all has_id files \<and> (\<forall>off. serves env off (take 50 (drop off files)))"
  then show "map length [take 50 files, take 50 (drop 50 files), take 50 (drop 100 files)] = [50, 50, 20]"
    by simp
next
  assume "length files = 120 \<and> list_all has_id files \<and> (\<forall>off. serves env off (take 50 (drop off files)))"
  then show "\<exists>s'. fetch_file_ids env s = Some (Inr (map file_id_of files), s') \<and>
           requests_of (trace s') =
             requests_of (trace s) @
               [GetFiles (zoho_headers s) 50 0, GetFiles (zoho_headers s) 50 50,
                GetFiles (zoho_headers s) 50 100]"
    using fetch_folder_120 [of files env s] by blast
qed


theorem fetch_file_ids_pagination_witness:
  "length folder120 = 120 \<and>
   map_option fst (fetch_file_ids (drive folder120 NoFile) init_state) =
     Some (Inr (map (\<lambda>i. JStr (file_name i)) [0..<120])) \<and>
   map_option (\<lambda>r. requests_of (trace (snd r))) (fetch_file_ids (drive folder120 NoFile) init_state) =
     Some [GetFiles (zoho_headers init_state) 50 0, GetFiles (zoho_headers init_state) 50 50,
           GetFiles (zoho_headers init_state) 50 100] \<and>
   map_option fst (fetch_file_ids (drive [file_record ''a'', file_record ''b''] NoFile) init_state) =
     Some (Inr [JStr ''a'', JStr ''b'']) \<and>
   map_option (\<lambda>r. requests_of (trace (snd r)))
       (fetch_file_ids (drive [file_record ''a'', file_record ''b''] NoFile) init_state) =
     Some [GetFiles (zoho_headers init_state) 50 0]"
proof -
  have served: "serves (drive fs tf) off (take 50 (drop off fs))" for fs tf off
    by (simp add: serves_def drive_def world_def py_get_def)
  have len: "length folder120 = 120"
    by (simp add: folder120_def)
  have ids: "list_all has_id folder120"
    by (simp add: folder120_def list_all_iff has_id_def is_dict_def file_record_def
        file_id_of_def field_def file_name_def)
  have names: "map file_id_of folder120 = map (\<lambda>i. JStr (file_name i)) [0..<120]"
    by (simp add: folder120_def file_id_of_def field_def file_record_def del: upt_rec_numeral)
  have empty: "requests_of (trace init_state) = []"
    by (simp add: init_state_def)
  have "\<exists>s'. fetch_file_ids (drive folder120 NoFile) init_state =
          Some (Inr (map file_id_of folder120), s') \<and>
        requests_of (trace s') =
          requests_of (trace init_state) @
            [GetFiles (zoho_headers init_state) 50 0, GetFiles (zoho_headers init_state) 50 50,
             GetFiles (zoho_headers init_state) 50 100]"
    using fetch_file_ids_pagination [of "[]" "drive folder120 NoFile" "[]" init_state folder120]
      len ids served [of folder120 NoFile]
    by blast
  then have big: "map_option fst (fetch_file_ids (drive folder120 NoFile) init_state) =
        Some (Inr (map (\<lambda>i. JStr (file_name i)) [0..<120])) \<and>
      map_option (\<lambda>r. requests_of (trace (snd r))) (fetch_file_ids (drive folder120 NoFile) init_state) =
        Some [GetFiles (zoho_headers init_state) 50 0, GetFiles (zoho_headers init_state) 50 50,
              GetFiles (zoho_headers init_state) 50 100]"
    unfolding names empty by auto
  let ?two = "[file_record ''a'', file_record ''b'']"
  have "list_all is_dict ?two"
    by (simp add: is_dict_def file_record_def)
  moreover have "serves (drive ?two NoFile) (50 * length ([] :: json list list)) ?two"
    using served [of ?two NoFile 0] by simp
  ultimately have "\<exists>s'. fetch_file_ids (drive ?two NoFile) init_state =
          Some (Inr (ids_of (concat [] @ ?two)), s') \<and>
        requests_of (trace s') =
          requests_of (trace init_state) @
            map (\<lambda>i. GetFiles (zoho_headers init_state) 50 (50 * i)) [0..<Suc (length ([] :: json list list))]"
    using fetch_file_ids_pagination [of "[]" "drive ?two NoFile" ?two init_state "[]"]
    by simp
  then have small: "map_option fst (fetch_file_ids (drive ?two NoFile) init_state) =
        Some (Inr [JStr ''a'', JStr ''b'']) \<and>
      map_option (\<lambda>r. requests_of (trace (snd r))) (fetch_file_ids (drive ?two NoFile) init_state) =
        Some [GetFiles (zoho_headers init_state) 50 0]"
    unfolding empty
    by (auto simp: ids_of_def file_id_of_def field_def file_record_def)
  show ?thesis
    using len big small by simp
qed

section \<open>Permission Setter and the loop over the files\<close>

text \<open>
  C3. When the permission request for a file raises a transport error, the setter
  returns the result with no permalink and \<open>success = False\<close>; and the orchestrator's
  loop, having met that file, waits its fixed delay and goes on with the remaining
  files, its collected results unchanged.
\<close>

theorem permission_failure_is_skipped:
  "(respond env (trace s0) (PostPermissions (zoho_headers s0) fid) = Inl RequestException \<longrightarrow>
      set_permissions_and_get_permalink env cfg fid s0 =
        (Inr \<lparr>file_id = fid, permalink = JNull, success = False\<rparr>,
         emit (Print (LogProcessError fid RequestException))
           (emit (Request (PostPermissions (zoho_headers s0) fid)) s0))) \<and>
   (respond env (trace s @ [Print (LogProcessing fid)]) (PostPermissions (zoho_headers s) fid)
        = Inl RequestException \<longrightarrow>
      process_files env cfg (fid # rest) results s =
        process_files env cfg rest results
          (emit (Sleep 1)
            (emit (Print (LogProcessError fid RequestException))
              (emit (Request (PostPermissions (zoho_headers s) fid))
                (emit (Print (LogProcessing fid)) s)))))"
  by (simp add: set_permissions_and_get_permalink_def set_permissions_try_def
      except_RequestException_def Let_def)

theorem permission_failure_is_skipped_witness:
  "respond (drive [] NoFile) (trace init_state @ [Print (LogProcessing (JStr ''locked''))])
       (PostPermissions (zoho_headers init_state) (JStr ''locked'')) = Inl RequestException \<and>
   fst (process_files (drive [] NoFile) example_config [JStr ''locked'', JStr ''open''] [] init_state)
     = Inr [(JStr ''open'', JStr ''https://workdrive.example/f'')] \<and>
   requests_of (trace (snd (process_files (drive [] NoFile) example_config
       [JStr ''locked'', JStr ''open''] [] init_state)))
     = [PostPermissions (zoho_headers init_state) (JStr ''locked''),
        PostPermissions (zoho_headers init_state) (JStr ''open'')]"
proof -
  have fails: "respond (drive [] NoFile) (trace init_state @ [Print (LogProcessing (JStr ''locked''))])
       (PostPermissions (zoho_headers init_state) (JStr ''locked'')) = Inl RequestException"
    by (simp add: drive_def world_def)
  have step: "process_files (drive [] NoFile) example_config [JStr ''locked'', JStr ''open''] [] init_state =
      process_files (drive [] NoFile) example_config [JStr ''open''] []
        (emit (Sleep 1)
          (emit (Print (LogProcessError (JStr ''locked'') RequestException))
            (emit (Request (PostPermissions (zoho_headers init_state) (JStr ''locked'')))
              (emit (Print (LogProcessing (JStr ''locked''))) init_state))))"
    using fails
      permission_failure_is_skipped [of "drive [] NoFile" init_state "JStr ''locked''"
        example_config init_state "[JStr ''open'']" "[]"]
    by blast
  show ?thesis
    unfolding step
    by (simp add: fails drive_def world_def set_permissions_and_get_permalink_def
        set_permissions_try_def except_RequestException_def Let_def permalink_body_def
        py_get_def init_state_def)
qed

section \<open>Properties of the Sheet Synchronizer\<close>

text \<open>
  C8. \<open>append_to_google_sheet\<close> never raises: whatever the world answers, the function
  returns normally, and an exception raised by the read, the filter or the append
  leaves nothing behind but one printed line.
\<close>

theorem append_never_raises:
  "append_to_google_sheet env cfg results s =
     (Inr (),
      case append_try env cfg results s of
        (Inl e, s') \<Rightarrow> emit (Print (if e = HttpError then LogAppendError e else LogUnexpected e)) s'
      | (Inr u, s') \<Rightarrow> s')"
  by (simp add: append_to_google_sheet_def split: prod.splits sum.splits)

theorem append_never_raises_witness:
  "fst (append_try (drive [] (Token True)) example_config [(JStr ''A'', JStr ''x'')] init_state)
     = Inl HttpError \<and>
   fst (append_try (drive [] NoFile) example_config [(JStr ''A'', JStr ''x'')] init_state)
     = Inl ValueError \<and>
   fst (append_to_google_sheet (drive [] (Token True)) example_config [(JStr ''A'', JStr ''x'')] init_state)
     = Inr () \<and>
   fst (append_to_google_sheet (drive [] NoFile) example_config [(JStr ''A'', JStr ''x'')] init_state)
     = Inr ()"
proof -
  have "fst (append_try (drive [] (Token True)) example_config [(JStr ''A'', JStr ''x'')] init_state)
      = Inl HttpError"
    by (simp add: append_try_def get_google_sheets_service_def get_google_sheets_service_try_def
        drive_def world_def Let_def)
  moreover have "fst (append_try (drive [] NoFile) example_config [(JStr ''A'', JStr ''x'')] init_state)
      = Inl ValueError"
    by (simp add: append_try_def get_google_sheets_service_def get_google_sheets_service_try_def
        drive_def world_def Let_def)
  ultimately show ?thesis
    using append_never_raises [of "drive [] (Token True)" example_config "[(JStr ''A'', JStr ''x'')]" init_state]
      append_never_raises [of "drive [] NoFile" example_config "[(JStr ''A'', JStr ''x'')]" init_state]
    by simp
qed








text \<open>For a string identifier the membership test is membership in the set of cells read.\<close>

lemma py_member_string: "py_member (JStr x) es = (JStr x \<in> set es)"
  by (induction es) (simp_all add: py_member_def)

lemma filter_new_hashable:
  assumes "list_all (\<lambda>r. py_hashable (fst r)) L"
  shows "\<exists>new. filter_new es L acc s =
            (Inr (acc @ filter (\<lambda>r. \<not> py_member (fst r) es) L), s\<lparr>trace := trace s @ new\<rparr>) \<and>
          appended_rows new = []"
  using assms
proof (induction L arbitrary: acc s)
  case Nil
  have "s = s\<lparr>trace := trace s @ []\<rparr>" by simp
  then show ?case by (metis filter_new.simps(1) append_Nil2 filter.simps(1) appended_rows.simps(1))
next
  case (Cons r L)
  obtain fid link where r: "r = (fid, link)" by (cases r)
  have h: "py_hashable fid" and rest: "list_all (\<lambda>r. py_hashable (fst r)) L"
    using Cons.prems by (simp_all add: r)
  show ?case
  proof (cases "py_member fid es")
    case True
    obtain new where "filter_new es L acc (emit (Print (LogSkipping fid)) s) =
        (Inr (acc @ filter (\<lambda>r. \<not> py_member (fst r) es) L),
         (emit (Print (LogSkipping fid)) s)\<lparr>trace := trace (emit (Print (LogSkipping fid)) s) @ new\<rparr>)"
      and "appended_rows new = []"
      using Cons.IH [OF rest] by blast
    then have "filter_new es (r # L) acc s =
        (Inr (acc @ filter (\<lambda>r. \<not> py_member (fst r) es) (r # L)),
         s\<lparr>trace := trace s @ (Print (LogSkipping fid) # new)\<rparr>) \<and>
        appended_rows (Print (LogSkipping fid) # new) = []"
      using True h by (simp add: r py_in_set_def py_member_def emit_def)
    then show ?thesis by blast
  next
    case False
    obtain new where "filter_new es L (acc @ [(fid, link)]) (emit (Print (LogWillAppend fid link)) s) =
        (Inr ((acc @ [(fid, link)]) @ filter (\<lambda>r. \<not> py_member (fst r) es) L),
         (emit (Print (LogWillAppend fid link)) s)
           \<lparr>trace := trace (emit (Print (LogWillAppend fid link)) s) @ new\<rparr>)"
      and "appended_rows new = []"
      using Cons.IH [OF rest] by blast
    then have "filter_new es (r # L) acc s =
        (Inr (acc @ filter (\<lambda>r. \<not> py_member (fst r) es) (r # L)),
         s\<lparr>trace := trace s @ (Print (LogWillAppend fid link) # new)\<rparr>) \<and>
        appended_rows (Print (LogWillAppend fid link) # new) = []"
      using False h by (simp add: r py_in_set_def py_member_def emit_def)
    then show ?thesis by blast
  qed
qed

lemma append_rows_sent:
  assumes "sheet_reads env cfg s es" and "list_all (\<lambda>r. py_hashable (fst r)) L"
  shows "appended_rows (trace (snd (append_to_google_sheet env cfg L s))) =
           appended_rows (trace s) @ filter (\<lambda>r. \<not> py_member (fst r) es) L"
proof -
  obtain result where tok: "TOKEN_PATH env (trace s) = Token True"
    and got: "respond env (trace s) (SheetsGet (SPREADSHEET_ID cfg) ''Sheet1!A2:A'') = Inr result"
    and ids: "existing_ids_of result = Inr es"
    using assms(1) by (auto simp: sheet_reads_def split: sum.splits)
  let ?s2 = "emit (Print (LogExistingIds es))
               (emit (Request (SheetsGet (SPREADSHEET_ID cfg) ''Sheet1!A2:A'')) s)"
  obtain new where f: "filter_new es L [] ?s2 =
        (Inr ([] @ filter (\<lambda>r. \<not> py_member (fst r) es) L), ?s2\<lparr>trace := trace ?s2 @ new\<rparr>)"
    and n: "appended_rows new = []"
    using filter_new_hashable [OF assms(2), of es "[]" ?s2] by blast
  have svc: "get_google_sheets_service env s = (Inr (), s)"
    using tok by (simp add: get_google_sheets_service_def get_google_sheets_service_try_def)
  show ?thesis
    using got ids f n
    by (simp add: append_to_google_sheet_def append_try_def svc SHEET_NAME_def Let_def
        split: sum.splits)
qed


lemma py_eq_refl: "py_eq x x"
  by (cases x) simp_all

lemma already_present:
  assumes "set es \<union> fst ` set (filter (\<lambda>r. \<not> py_member (fst r) es) L) \<subseteq> set es'"
  shows "filter (\<lambda>r. \<not> py_member (fst r) es') L = []"
proof -
  have "py_member (fst r) es'" if "r \<in> set L" for r
  proof (cases "py_member (fst r) es")
    case True
    then show ?thesis
      using assms by (auto simp: py_member_def list_ex_iff)
  next
    case False
    then have "fst r \<in> set es'"
      using assms that by auto
    then show ?thesis
      using py_eq_refl by (auto simp: py_member_def list_ex_iff)
  qed
  then show ?thesis by (simp add: filter_empty_conv)
qed

text \<open>
  C1. When the identifier column holds \<open>es\<close>, the rows handed to the spreadsheet are
  exactly the collected pairs whose identifier is not in \<open>es\<close>, in their order. So when
  the synchronizer runs again on the same pairs, and the column now holds what it held
  and what was appended, no row is handed over.
\<close>

theorem append_filters_existing_ids:
  assumes "sheet_reads env cfg s es" and "list_all (\<lambda>r. py_hashable (fst r)) L"
  shows "(let new_rows = filter (\<lambda>r. \<not> py_member (fst r) es) L;
              s' = snd (append_to_google_sheet env cfg L s)
          in appended_rows (trace s') = appended_rows (trace s) @ new_rows \<and>
             (sheet_reads env cfg s' es' \<and> set es \<union> fst ` set new_rows \<subseteq> set es' \<longrightarrow>
                appended_rows (trace (snd (append_to_google_sheet env cfg L s'))) =
                  appended_rows (trace s')))"
  using append_rows_sent [OF assms] append_rows_sent [OF _ assms(2), of env cfg _ es']
    already_present [of es L es']
  by (simp add: Let_def)

theorem append_filters_existing_ids_witness:
  "appended_rows (trace (snd (append_to_google_sheet (spreadsheet [JStr ''A'', JStr ''B''])
       example_config [(JStr ''A'', JStr ''x''), (JStr ''C'', JStr ''y'')] init_state)))
     = [(JStr ''C'', JStr ''y'')] \<and>
   appended_rows (trace (snd (append_to_google_sheet (spreadsheet [JStr ''A'', JStr ''B''])
       example_config [(JStr ''A'', JStr ''x''), (JStr ''C'', JStr ''y'')]
       (snd (append_to_google_sheet (spreadsheet [JStr ''A'', JStr ''B''])
          example_config [(JStr ''A'', JStr ''x''), (JStr ''C'', JStr ''y'')] init_state)))))
     = [(JStr ''C'', JStr ''y'')]"
proof -
  let ?env = "spreadsheet [JStr ''A'', JStr ''B'']"
  let ?L = "[(JStr ''A'', JStr ''x''), (JStr ''C'', JStr ''y'')]"
  let ?s' = "snd (append_to_google_sheet ?env example_config ?L init_state)"
  have token: "TOKEN_PATH ?env tr = Token True" for tr
    by (simp add: spreadsheet_def)
  have column: "respond ?env tr (SheetsGet sid rng) =
      Inr (JObj [(''values'',
        JArr (map (\<lambda>f. JArr [f]) ([JStr ''A'', JStr ''B''] @ map fst (appended_rows tr))))])"
    for tr sid rng
    by (simp add: spreadsheet_def)
  have first: "sheet_reads ?env example_config init_state [JStr ''A'', JStr ''B'']"
    by (simp add: sheet_reads_def token column init_state_def existing_ids_of_def py_get_def
        py_iter_def py_index0_def)
  have ids: "list_all (\<lambda>r. py_hashable (fst r)) ?L"
    by simp
  have sent: "appended_rows (trace ?s') = [(JStr ''C'', JStr ''y'')]"
    using append_filters_existing_ids [OF first ids, of "[]"]
    by (simp add: Let_def py_member_def init_state_def)
  have second: "sheet_reads ?env example_config ?s' [JStr ''A'', JStr ''B'', JStr ''C'']"
    by (simp add: sheet_reads_def token column sent existing_ids_of_def py_get_def
        py_iter_def py_index0_def)
  show ?thesis
    using append_filters_existing_ids [OF first ids, of "[JStr ''A'', JStr ''B'', JStr ''C'']"] second
    by (simp add: Let_def py_member_def init_state_def)
qed

end
